theory Spec2Isabelle
  imports Complex_Main "HOL-Library.Word"
begin

section \<open>Data model\<close>

text \<open>
  The generator works on NumPy arrays of double-precision floats. Floats are read as
  real numbers throughout: none of the properties below depends on rounding. A
  two-dimensional array is its shape together with its cells in row-major order, so that
  cell \<open>[r, c]\<close> of an array with \<open>shape1 = w\<close> is \<open>flat ! (r * w + c)\<close>. An array
  of points (shape \<open>(n, 2)\<close>) is a list of pairs, an array of points with an angle column
  (shape \<open>(n, 3)\<close>) a list of pairs of a point and an angle.
\<close>

datatype py_error = ValueError | IndexError | ZeroDivisionError

record 'a ndarray =
  shape0 :: nat
  shape1 :: nat
  flat :: "'a list"

type_synonym point = "real \<times> real"

definition padd :: "point \<Rightarrow> point \<Rightarrow> point" where
  "padd u v = (fst u + fst v, snd u + snd v)"

definition pscale :: "real \<Rightarrow> point \<Rightarrow> point" where
  "pscale k u = (k * fst u, k * snd u)"

definition zeros :: "nat \<Rightarrow> nat \<Rightarrow> real ndarray" where
  "zeros h w = \<lparr>shape0 = h, shape1 = w, flat = replicate (h * w) 0\<rparr>"

text \<open>\<open>np.zeros((height, width))\<close> raises \<open>ValueError\<close> on a negative dimension.\<close>

definition np_zeros :: "int \<Rightarrow> int \<Rightarrow> py_error + real ndarray" where
  "np_zeros height width =
     (if height < 0 \<or> width < 0 then Inl ValueError
      else Inr (zeros (nat height) (nat width)))"

definition zeros_like :: "real ndarray \<Rightarrow> real ndarray" where
  "zeros_like a = zeros (shape0 a) (shape1 a)"

text \<open>
  A bound of a Python slice over an axis of extent \<open>n\<close>: a negative bound counts from
  the end, and the result is clipped to \<open>[0, n]\<close>. Index \<open>k\<close> is selected by
  \<open>start:stop\<close> when it lies between the two clipped bounds.
\<close>

definition slice_bound :: "nat \<Rightarrow> int \<Rightarrow> nat" where
  "slice_bound n i = (if i < 0 then nat (max 0 (int n + i)) else min n (nat i))"

definition in_slice :: "nat \<Rightarrow> int \<Rightarrow> int \<Rightarrow> nat \<Rightarrow> bool" where
  "in_slice n start stop k \<longleftrightarrow> slice_bound n start \<le> k \<and> k < slice_bound n stop"

text \<open>\<open>a[r0:r1, c0:c1] = v\<close>\<close>

definition assign_block :: "real ndarray \<Rightarrow> int \<Rightarrow> int \<Rightarrow> int \<Rightarrow> int \<Rightarrow> real \<Rightarrow> real ndarray" where
  "assign_block a r0 r1 c0 c1 v =
     a\<lparr>flat := map (\<lambda>i. if in_slice (shape0 a) r0 r1 (i div shape1 a)
                              \<and> in_slice (shape1 a) c0 c1 (i mod shape1 a)
                           then v else flat a ! i)
                   [0..<length (flat a)]\<rparr>"

text \<open>\<open>a[yi, xi] = v\<close> for indices already known to be in range.\<close>

definition set_cell :: "real ndarray \<Rightarrow> nat \<Rightarrow> nat \<Rightarrow> real \<Rightarrow> real ndarray" where
  "set_cell a yi xi v = a\<lparr>flat := (flat a)[yi * shape1 a + xi := v]\<rparr>"

text \<open>\<open>a += b\<close> and \<open>a + b\<close> for arrays of one shape; the shape is the left operand's.\<close>

definition iadd :: "real ndarray \<Rightarrow> real ndarray \<Rightarrow> real ndarray" where
  "iadd a b = a\<lparr>flat := map2 (+) (flat a) (flat b)\<rparr>"

text \<open>\<open>a.max()\<close> raises \<open>ValueError\<close> on an array without cells.\<close>

definition amax :: "real ndarray \<Rightarrow> py_error + real" where
  "amax a = (if flat a = [] then Inl ValueError else Inr (Max (set (flat a))))"

definition np_divide :: "real ndarray \<Rightarrow> real \<Rightarrow> real ndarray" where
  "np_divide a m = a\<lparr>flat := map (\<lambda>v. v / m) (flat a)\<rparr>"

definition np_multiply :: "real ndarray \<Rightarrow> real \<Rightarrow> real ndarray" where
  "np_multiply a k = a\<lparr>flat := map (\<lambda>v. v * k) (flat a)\<rparr>"

definition clip :: "real ndarray \<Rightarrow> real \<Rightarrow> real \<Rightarrow> real ndarray" where
  "clip a lo hi = a\<lparr>flat := map (\<lambda>v. min hi (max lo v)) (flat a)\<rparr>"

text \<open>Python's \<open>int(x)\<close> and the cast to an integer type truncate towards zero.\<close>

definition trunc :: "real \<Rightarrow> int" where
  "trunc x = (if 0 \<le> x then \<lfloor>x\<rfloor> else \<lceil>x\<rceil>)"

definition astype_uint8 :: "real ndarray \<Rightarrow> 8 word ndarray" where
  "astype_uint8 a =
     \<lparr>shape0 = shape0 a, shape1 = shape1 a, flat = map (\<lambda>v. word_of_int (trunc v)) (flat a)\<rparr>"

section \<open>Random draws\<close>

text \<open>
  The process-wide NumPy generator is an explicit state: the sequence of the uniform
  draws from \<open>[0, 1)\<close> still to come. Each call consumes a prefix and returns the rest.
  \<open>randint low high\<close> raises \<open>ValueError\<close> when \<open>low \<ge> high\<close>; \<open>rand(n, 2)\<close> raises it
  on a negative \<open>n\<close>.
\<close>

type_synonym rng = "nat \<Rightarrow> real"

definition advance :: "nat \<Rightarrow> rng \<Rightarrow> rng" where
  "advance k g = (\<lambda>i. g (i + k))"

definition unit_draws :: "rng \<Rightarrow> bool" where
  "unit_draws g \<longleftrightarrow> (\<forall>i. 0 \<le> g i \<and> g i < 1)"

definition randint :: "int \<Rightarrow> int \<Rightarrow> rng \<Rightarrow> py_error + (int \<times> rng)" where
  "randint low high g =
     (if high \<le> low then Inl ValueError
      else Inr (low + \<lfloor>g 0 * real_of_int (high - low)\<rfloor>, advance 1 g))"

definition uniform :: "real \<Rightarrow> real \<Rightarrow> rng \<Rightarrow> real \<times> rng" where
  "uniform low high g = (low + (high - low) * g 0, advance 1 g)"

definition rand_rows :: "nat \<Rightarrow> rng \<Rightarrow> point list" where
  "rand_rows n g = map (\<lambda>i. (g (2 * i), g (2 * i + 1))) [0..<n]"

definition random_rand :: "int \<Rightarrow> rng \<Rightarrow> py_error + (point list \<times> rng)" where
  "random_rand n g =
     (if n < 0 then Inl ValueError
      else Inr (rand_rows (nat n) g, advance (2 * nat n) g))"

section \<open>bezier.py\<close>

definition bernstein :: "nat \<Rightarrow> nat \<Rightarrow> real \<Rightarrow> real" where
  "bernstein n k t = real (n choose k) * t ^ k * (1 - t) ^ (n - k)"

definition linspace :: "real \<Rightarrow> real \<Rightarrow> nat \<Rightarrow> real list" where
  "linspace start stop num =
     map (\<lambda>i. start + real i * ((stop - start) / real (num - 1))) [0..<num]"

text \<open>\<open>np.outer(ws, pt)\<close>: one row \<open>w * pt\<close> for each weight.\<close>

definition outer :: "real list \<Rightarrow> point \<Rightarrow> point list" where
  "outer ws pt = map (\<lambda>w. pscale w pt) ws"

definition bezier :: "point list \<Rightarrow> nat \<Rightarrow> point list" where
  "bezier points num =
     (let N = length points;
          t = linspace 0 1 num
      in foldl (\<lambda>curve i. map2 padd curve (outer (map (bernstein (N - 1) i) t) (points ! i)))
               (replicate num (0, 0)) [0..<N])"

record segment =
  seg_p1 :: point
  seg_p2 :: point
  seg_angle1 :: real
  seg_angle2 :: real
  seg_numpoints :: nat
  seg_r :: real
  seg_p :: "point list"
  seg_curve :: "point list"

text \<open>The keyword arguments \<open>**kw\<close> of \<open>Segment\<close> and \<open>get_curve\<close>.\<close>

record kwargs =
  kw_numpoints :: "nat option"
  kw_r :: "real option"

definition euclid :: "point \<Rightarrow> point \<Rightarrow> real" where
  "euclid u v = sqrt ((fst v - fst u)\<^sup>2 + (snd v - snd u)\<^sup>2)"

definition calc_intermediate_points :: "segment \<Rightarrow> segment" where
  "calc_intermediate_points s =
     (let p' = (seg_p s)
                 [1 := padd (seg_p1 s) (seg_r s * cos (seg_angle1 s), seg_r s * sin (seg_angle1 s)),
                  2 := padd (seg_p2 s)
                         (seg_r s * cos (seg_angle2 s + pi), seg_r s * sin (seg_angle2 s + pi))]
      in s\<lparr>seg_p := p', seg_curve := bezier p' (seg_numpoints s)\<rparr>)"

definition Segment :: "point \<Rightarrow> point \<Rightarrow> real \<Rightarrow> real \<Rightarrow> kwargs \<Rightarrow> segment" where
  "Segment p1 p2 angle1 angle2 kw =
     (let numpoints = (case kw_numpoints kw of None \<Rightarrow> 100 | Some k \<Rightarrow> k);
          r = (case kw_r kw of None \<Rightarrow> 3 / 10 | Some v \<Rightarrow> v);
          d = euclid p1 p2
      in calc_intermediate_points
           \<lparr>seg_p1 = p1, seg_p2 = p2, seg_angle1 = angle1, seg_angle2 = angle2,
            seg_numpoints = numpoints, seg_r = r * d,
            seg_p = (replicate 4 (0, 0))[0 := p1, 3 := p2], seg_curve = []\<rparr>)"

text \<open>
  \<open>get_curve\<close>: one segment for each pair of consecutive rows; \<open>np.concatenate\<close> raises
  \<open>ValueError\<close> on an empty list of segments.
\<close>

definition get_curve :: "(point \<times> real) list \<Rightarrow> kwargs \<Rightarrow> py_error + (segment list \<times> point list)" where
  "get_curve points kw =
     (let segments = map (\<lambda>i. Segment (fst (points ! i)) (fst (points ! (i + 1)))
                                      (snd (points ! i)) (snd (points ! (i + 1))) kw)
                         [0..<length points - 1]
      in if segments = [] then Inl ValueError
         else Inr (segments, concat (map seg_curve segments)))"

text \<open>\<open>np.arctan2(y, x)\<close> on finite arguments.\<close>

definition arctan2 :: "real \<Rightarrow> real \<Rightarrow> real" where
  "arctan2 y x =
     (if 0 < x then arctan (y / x)
      else if x < 0 then (if 0 \<le> y then arctan (y / x) + pi else arctan (y / x) - pi)
      else if 0 < y then pi / 2
      else if y < 0 then - (pi / 2)
      else 0)"

definition mean0 :: "point list \<Rightarrow> point" where
  "mean0 ps = (sum_list (map fst ps) / real (length ps), sum_list (map snd ps) / real (length ps))"

text \<open>
  \<open>ccw_sort\<close>: the rows in ascending order of \<open>arctan2(dx, dy)\<close> about the mean. Rows
  with equal keys keep their order here; NumPy's \<open>argsort\<close> leaves their order open.
\<close>

definition ccw_sort :: "point list \<Rightarrow> point list" where
  "ccw_sort ps =
     (let m = mean0 ps
      in sort_key (\<lambda>q. arctan2 (fst q - fst m) (snd q - snd m)) ps)"

definition diff :: "point list \<Rightarrow> point list" where
  "diff a = map2 (\<lambda>u v. (fst v - fst u, snd v - snd u)) a (tl a)"

definition roll1 :: "'a list \<Rightarrow> 'a list" where
  "roll1 xs = (if xs = [] then [] else last xs # butlast xs)"

definition get_bezier_curve ::
    "point list \<Rightarrow> real \<Rightarrow> real \<Rightarrow> py_error + (real list \<times> real list \<times> (point \<times> real) list)" where
  "get_bezier_curve a rad edgy =
     (let p = arctan edgy / pi + 1 / 2;
          a1 = ccw_sort a
      in if a1 = [] then Inl IndexError
         else
           let a2 = a1 @ [a1 ! 0];
               d = diff a2;
               ang0 = map (\<lambda>v. arctan2 (snd v) (fst v)) d;
               ang1 = map (\<lambda>w. if 0 \<le> w then w else w + 2 * pi) ang0;
               ang2 = roll1 ang1;
               ang3 = map2 (\<lambda>u v. p * u + (1 - p) * v + (if pi < \<bar>v - u\<bar> then pi else 0))
                        ang1 ang2;
               ang4 = ang3 @ [ang3 ! 0];
               a3 = zip a2 ang4
           in case get_curve a3 \<lparr>kw_numpoints = None, kw_r = Some rad\<rparr> of
                Inl e \<Rightarrow> Inl e
              | Inr (s, c) \<Rightarrow> Inr (map fst c, map snd c, a3))"

text \<open>\<open>mindst or 0.7 / n\<close>: \<open>None\<close> and \<open>0.0\<close> are both falsy.\<close>

definition mindst_or :: "real option \<Rightarrow> int \<Rightarrow> py_error + real" where
  "mindst_or mindst n =
     (case mindst of
        Some m \<Rightarrow> if m \<noteq> 0 then Inr m
                  else if n = 0 then Inl ZeroDivisionError else Inr ((7 / 10) / real_of_int n)
      | None \<Rightarrow> if n = 0 then Inl ZeroDivisionError else Inr ((7 / 10) / real_of_int n))"

definition consecutive_distances :: "point list \<Rightarrow> real list" where
  "consecutive_distances a = map (\<lambda>v. sqrt ((fst v)\<^sup>2 + (snd v)\<^sup>2)) (diff a)"

function get_random_points ::
    "int \<Rightarrow> real \<Rightarrow> real option \<Rightarrow> int \<Rightarrow> rng \<Rightarrow> py_error + (point list \<times> rng)" where
  "get_random_points n scale mindst rec g =
     (case mindst_or mindst n of
        Inl e \<Rightarrow> Inl e
      | Inr md \<Rightarrow>
          (case random_rand n g of
             Inl e \<Rightarrow> Inl e
           | Inr (a, g') \<Rightarrow>
               if list_all (\<lambda>v. md \<le> v) (consecutive_distances (ccw_sort a)) \<or> 200 \<le> rec
               then Inr (map (pscale scale) a, g')
               else get_random_points n scale (Some md) (rec + 1) g'))"
  by pat_completeness auto
termination
  by (relation "measure (\<lambda>(n, scale, mindst, rec, g). nat (200 - rec))") auto

section \<open>thermal\_heatmap\_generator.py\<close>

text \<open>
  \<open>scipy.ndimage.gaussian_filter\<close> is a library routine outside the repository. It is a
  parameter \<open>gf sigma a\<close> of every function that blurs; what the results below need of it
  is collected in \<open>gaussian_like\<close>: the output has the shape of the input, a non-negative
  input gives a non-negative output (the kernel weights are positive), and an all-zero
  input gives an all-zero output.
\<close>

type_synonym gaussian_filter = "real \<Rightarrow> real ndarray \<Rightarrow> real ndarray"

definition gaussian_like :: "gaussian_filter \<Rightarrow> bool" where
  "gaussian_like gf \<longleftrightarrow>
     (\<forall>sigma a. shape0 (gf sigma a) = shape0 a \<and> shape1 (gf sigma a) = shape1 a
                \<and> length (flat (gf sigma a)) = length (flat a))
     \<and> (\<forall>sigma a. (\<forall>v \<in> set (flat a). 0 \<le> v) \<longrightarrow> (\<forall>v \<in> set (flat (gf sigma a)). 0 \<le> v))
     \<and> (\<forall>sigma a. (\<forall>v \<in> set (flat a). v = 0) \<longrightarrow> (\<forall>v \<in> set (flat (gf sigma a)). v = 0))"

text \<open>
  The filter for \<open>sigma < 1/8\<close>: the kernel radius \<open>int(4 * sigma + 0.5)\<close> is then \<open>0\<close>,
  the kernel is the single weight \<open>1\<close>, and the output is the input.
\<close>

definition gaussian_radius0 :: gaussian_filter where
  "gaussian_radius0 sigma a = a"

text \<open>
  \<open>generate_heat_source\<close>. The slice assignment has no failing branch: NumPy clips the
  bounds of a slice, so the result is always \<open>Inr\<close>.
\<close>

definition generate_heat_source ::
    "gaussian_filter \<Rightarrow> real ndarray \<Rightarrow> int \<Rightarrow> int \<Rightarrow> real \<Rightarrow> int \<Rightarrow> real
       \<Rightarrow> py_error + real ndarray" where
  "generate_heat_source gf heatmap x y intensity size' spread_sigma =
     (let heat_source = zeros_like heatmap;
          heat_source = assign_block heat_source
                          (y - size' div 2) (y + size' div 2 + 1)
                          (x - size' div 2) (x + size' div 2 + 1) intensity
      in Inr (gf spread_sigma heat_source))"

text \<open>The point set of one iteration of \<open>add_random_edges\<close> (its first statement).\<close>

definition edge_random_points :: "real ndarray \<Rightarrow> int \<Rightarrow> rng \<Rightarrow> py_error + (point list \<times> rng)" where
  "edge_random_points heatmap num_points g =
     get_random_points num_points (real (shape0 heatmap)) None 0 g"

text \<open>The body of the inner loop: one curve sample, truncated and bounds-checked.\<close>

definition plot :: "real ndarray \<Rightarrow> int \<Rightarrow> real ndarray \<Rightarrow> point \<Rightarrow> real ndarray" where
  "plot heatmap edge_intensity edges_map q =
     (let xi = trunc (fst q); yi = trunc (snd q)
      in if 0 \<le> xi \<and> xi < int (shape1 heatmap) \<and> 0 \<le> yi \<and> yi < int (shape0 heatmap)
         then set_cell edges_map (nat yi) (nat xi) (real_of_int edge_intensity)
         else edges_map)"

fun edges_loop ::
    "real ndarray \<Rightarrow> nat \<Rightarrow> int \<Rightarrow> int \<Rightarrow> real ndarray \<Rightarrow> rng \<Rightarrow> py_error + (real ndarray \<times> rng)" where
  "edges_loop heatmap 0 edge_intensity num_points edges_map g = Inr (edges_map, g)"
| "edges_loop heatmap (Suc k) edge_intensity num_points edges_map g =
     (case edge_random_points heatmap num_points g of
        Inl e \<Rightarrow> Inl e
      | Inr (random_points, g') \<Rightarrow>
          (case get_bezier_curve random_points (1 / 5) 0 of
             Inl e \<Rightarrow> Inl e
           | Inr (x, y, _) \<Rightarrow>
               edges_loop heatmap k edge_intensity num_points
                 (foldl (plot heatmap edge_intensity) edges_map (zip x y)) g'))"

definition add_random_edges ::
    "real ndarray \<Rightarrow> int \<Rightarrow> int \<Rightarrow> int \<Rightarrow> rng \<Rightarrow> py_error + (real ndarray \<times> rng)" where
  "add_random_edges heatmap num_edges edge_intensity num_points g =
     edges_loop heatmap (nat num_edges) edge_intensity num_points (zeros_like heatmap) g"

text \<open>The loop over \<open>range(num_sources)\<close>, with \<open>k\<close> iterations left.\<close>

fun sources_loop ::
    "gaussian_filter \<Rightarrow> int \<Rightarrow> int \<Rightarrow> real \<Rightarrow> nat \<Rightarrow> real ndarray \<Rightarrow> rng
       \<Rightarrow> py_error + (real ndarray \<times> rng)" where
  "sources_loop gf width height source_sigma 0 heatmap g = Inr (heatmap, g)"
| "sources_loop gf width height source_sigma (Suc k) heatmap g =
     (case randint 10 (width - 10) g of
        Inl e \<Rightarrow> Inl e
      | Inr (x, g1) \<Rightarrow>
          (case randint 10 (height - 10) g1 of
             Inl e \<Rightarrow> Inl e
           | Inr (y, g2) \<Rightarrow>
               (case uniform 200 255 g2 of
                  (intensity, g3) \<Rightarrow>
                    (case generate_heat_source gf heatmap x y intensity 5 source_sigma of
                       Inl e \<Rightarrow> Inl e
                     | Inr hs \<Rightarrow>
                         sources_loop gf width height source_sigma k (iadd heatmap hs) g3))))"

text \<open>\<open>if a.max() != 0: a = a / a.max()\<close>\<close>

definition normalize_max :: "real ndarray \<Rightarrow> py_error + real ndarray" where
  "normalize_max a =
     (case amax a of Inl e \<Rightarrow> Inl e | Inr m \<Rightarrow> Inr (if m \<noteq> 0 then np_divide a m else a))"

text \<open>Lines 89 to 112 of \<open>generate_thermal_heatmap\<close>: everything up to \<open>combined_heatmap\<close>.\<close>

definition combined_buffer ::
    "gaussian_filter \<Rightarrow> int \<Rightarrow> int \<Rightarrow> int \<Rightarrow> int \<Rightarrow> real \<Rightarrow> real \<Rightarrow> rng
       \<Rightarrow> py_error + (real ndarray \<times> rng)" where
  "combined_buffer gf width height num_sources num_edges edge_sigma source_sigma g =
     (case np_zeros height width of
        Inl e \<Rightarrow> Inl e
      | Inr heatmap0 \<Rightarrow>
          (case sources_loop gf width height source_sigma (nat num_sources) heatmap0 g of
             Inl e \<Rightarrow> Inl e
           | Inr (heatmap, g1) \<Rightarrow>
               (case add_random_edges heatmap num_edges 128 3 g1 of
                  Inl e \<Rightarrow> Inl e
                | Inr (edges0, g2) \<Rightarrow>
                    (let edges1 = gf edge_sigma edges0
                     in case normalize_max heatmap of
                          Inl e \<Rightarrow> Inl e
                        | Inr heatmap' \<Rightarrow>
                            (case normalize_max edges1 of
                               Inl e \<Rightarrow> Inl e
                             | Inr edges \<Rightarrow> Inr (iadd heatmap' edges, g2))))))"

text \<open>Lines 115 to 117: the rescale to \<open>[0, 255]\<close>, the clip and the cast.\<close>

definition final_rescale :: "real ndarray \<Rightarrow> py_error + 8 word ndarray" where
  "final_rescale combined_heatmap =
     (case amax combined_heatmap of
        Inl e \<Rightarrow> Inl e
      | Inr m \<Rightarrow>
          Inr (astype_uint8
                 (clip (if m \<noteq> 0 then np_multiply (np_divide combined_heatmap m) 255
                        else combined_heatmap) 0 255)))"

definition generate_thermal_heatmap ::
    "gaussian_filter \<Rightarrow> int \<Rightarrow> int \<Rightarrow> int \<Rightarrow> int \<Rightarrow> real \<Rightarrow> real \<Rightarrow> rng
       \<Rightarrow> py_error + (8 word ndarray \<times> rng)" where
  "generate_thermal_heatmap gf width height num_sources num_edges edge_sigma source_sigma g =
     (case combined_buffer gf width height num_sources num_edges edge_sigma source_sigma g of
        Inl e \<Rightarrow> Inl e
      | Inr (combined_heatmap, g') \<Rightarrow>
          (case final_rescale combined_heatmap of
             Inl e \<Rightarrow> Inl e
           | Inr out \<Rightarrow> Inr (out, g')))"

section \<open>Notions used to state the properties\<close>

text \<open>
  The square stamp region \<open>[y - size // 2, y + size // 2] \<times> [x - size // 2, x + size // 2]\<close>
  lies within the canvas.
\<close>

definition stamp_region_inside :: "real ndarray \<Rightarrow> int \<Rightarrow> int \<Rightarrow> int \<Rightarrow> bool" where
  "stamp_region_inside heatmap x y size' \<longleftrightarrow>
     0 \<le> y - size' div 2 \<and> y + size' div 2 < int (shape0 heatmap)
     \<and> 0 \<le> x - size' div 2 \<and> x + size' div 2 < int (shape1 heatmap)"

text \<open>No cell of the buffer is negative.\<close>

definition non_negative :: "real ndarray \<Rightarrow> bool" where
  "non_negative a \<longleftrightarrow> (\<forall>v \<in> set (flat a). 0 \<le> v)"

text \<open>
  The reference for the accumulation of heat sources: the same draws as \<open>sources_loop\<close>,
  but every source is stamped on its own zero canvas of \<open>rows \<times> cols\<close> cells and the
  stamps are collected instead of summed.
\<close>

fun independent_stamps ::
    "gaussian_filter \<Rightarrow> int \<Rightarrow> int \<Rightarrow> real \<Rightarrow> nat \<Rightarrow> nat \<Rightarrow> nat \<Rightarrow> rng
       \<Rightarrow> py_error + (real ndarray list \<times> rng)" where
  "independent_stamps gf width height source_sigma 0 rows cols g = Inr ([], g)"
| "independent_stamps gf width height source_sigma (Suc k) rows cols g =
     (case randint 10 (width - 10) g of
        Inl e \<Rightarrow> Inl e
      | Inr (x, g1) \<Rightarrow>
          (case randint 10 (height - 10) g1 of
             Inl e \<Rightarrow> Inl e
           | Inr (y, g2) \<Rightarrow>
               (case uniform 200 255 g2 of
                  (intensity, g3) \<Rightarrow>
                    (case generate_heat_source gf (zeros rows cols) x y intensity 5 source_sigma of
                       Inl e \<Rightarrow> Inl e
                     | Inr hs \<Rightarrow>
                         (case independent_stamps gf width height source_sigma k rows cols g3 of
                            Inl e \<Rightarrow> Inl e
                          | Inr (stamps, g') \<Rightarrow> Inr (hs # stamps, g'))))))"

declare get_random_points.simps [simp del]

section \<open>Curve segments\<close>

lemma length_linspace: "length (linspace a b num) = num"
  by (simp add: linspace_def)

lemma hd_linspace: "1 \<le> num \<Longrightarrow> hd (linspace 0 1 num) = 0"
  by (simp add: linspace_def hd_map upt_conv_Cons)

lemma last_linspace: "2 \<le> num \<Longrightarrow> last (linspace 0 1 num) = 1"
  by (simp add: linspace_def last_map)

lemma map2_padd_map: "map2 padd (map f xs) (map h xs) = map (\<lambda>x. padd (f x) (h x)) xs"
  by (induction xs) auto

text \<open>With four control points the accumulation loop of \<open>bezier\<close> runs four times.\<close>

lemma bezier4:
  "bezier [q0, q1, q2, q3] num =
     map (\<lambda>t. padd (padd (padd (padd (0, 0) (pscale (bernstein 3 0 t) q0))
                                 (pscale (bernstein 3 1 t) q1))
                           (pscale (bernstein 3 2 t) q2))
                     (pscale (bernstein 3 3 t) q3))
         (linspace 0 1 num)"
proof -
  have r: "replicate num (0::real, 0::real) = map (\<lambda>t. (0, 0)) (linspace 0 1 num)"
    by (simp add: map_replicate_const length_linspace)
  show ?thesis
    by (simp add: bezier_def Let_def r outer_def map2_padd_map o_def upt_conv_Cons
          eval_nat_numeral del: upt_Suc)
qed

lemma bernstein_at_0:
  "bernstein 3 0 0 = 1" "bernstein 3 (Suc 0) 0 = 0" "bernstein 3 2 0 = 0" "bernstein 3 3 0 = 0"
  by (simp_all add: bernstein_def)

lemma bernstein_at_1:
  "bernstein 3 0 1 = 0" "bernstein 3 (Suc 0) 1 = 0" "bernstein 3 2 1 = 0" "bernstein 3 3 1 = 1"
  by (simp_all add: bernstein_def)

lemma padd_zero_left: "padd (0, 0) u = u"
  by (simp add: padd_def)

lemma padd_zero_right: "padd u (0, 0) = u"
  by (simp add: padd_def)

lemma pscale_one: "pscale 1 u = u"
  by (simp add: pscale_def)

lemma pscale_zero: "pscale 0 u = (0, 0)"
  by (simp add: pscale_def)

lemma length_bezier4: "length (bezier [q0, q1, q2, q3] num) = num"
  by (simp add: bezier4 length_linspace)

lemma hd_bezier4: "1 \<le> num \<Longrightarrow> hd (bezier [q0, q1, q2, q3] num) = q0"
proof -
  assume n: "1 \<le> num"
  then have ne: "linspace 0 1 num \<noteq> []"
    using length_linspace [of 0 1 num] by auto
  show ?thesis
    by (simp add: bezier4 hd_map ne hd_linspace [OF n] bernstein_at_0 pscale_one pscale_zero
          padd_zero_left padd_zero_right)
qed

lemma last_bezier4: "2 \<le> num \<Longrightarrow> last (bezier [q0, q1, q2, q3] num) = q3"
proof -
  assume n: "2 \<le> num"
  then have ne: "linspace 0 1 num \<noteq> []"
    using length_linspace [of 0 1 num] by auto
  show ?thesis
    by (simp add: bezier4 last_map ne last_linspace [OF n] bernstein_at_1 pscale_one pscale_zero
          padd_zero_left padd_zero_right)
qed

lemma seg_p_Segment:
  "seg_p (Segment p1 p2 angle1 angle2 kw) =
     (let r = (case kw_r kw of None \<Rightarrow> 3 / 10 | Some v \<Rightarrow> v) * euclid p1 p2
      in [p1,
          padd p1 (r * cos angle1, r * sin angle1),
          padd p2 (r * cos (angle2 + pi), r * sin (angle2 + pi)),
          p2])"
  by (simp add: Segment_def calc_intermediate_points_def Let_def eval_nat_numeral)

lemma seg_curve_Segment:
  "seg_curve (Segment p1 p2 angle1 angle2 kw) =
     bezier (seg_p (Segment p1 p2 angle1 angle2 kw))
       (seg_numpoints (Segment p1 p2 angle1 angle2 kw))"
  by (simp add: Segment_def calc_intermediate_points_def Let_def)

lemma seg_numpoints_Segment:
  "seg_numpoints (Segment p1 p2 angle1 angle2 kw) =
     (case kw_numpoints kw of None \<Rightarrow> 100 | Some k \<Rightarrow> k)"
  by (simp add: Segment_def calc_intermediate_points_def Let_def)



section \<open>The point sampler\<close>

text \<open>
  Claim C9. Passing \<open>mindst = 0.0\<close> to \<open>get_random_points\<close> is the same as omitting it:
  \<open>mindst or 0.7 / n\<close> replaces the falsy \<open>0.0\<close> by \<open>0.7 / n\<close>, so the constraint cannot be
  switched off with a zero.
\<close>

theorem get_random_points_zero_mindst:
  "get_random_points n scale (Some 0) rec g = get_random_points n scale None rec g"
  by (simp add: get_random_points.simps [of n scale "Some 0" rec g]
        get_random_points.simps [of n scale None rec g] mindst_or_def)

section \<open>Closed curves\<close>

lemma length_ccw_sort: "length (ccw_sort ps) = length ps"
  by (simp add: ccw_sort_def Let_def)

lemma length_diff: "length (diff a) = length a - 1"
  by (simp add: diff_def)

lemma length_roll1: "length (roll1 xs) = length xs"
  by (simp add: roll1_def)

lemma length_seg_curve_default:
  "length (seg_curve (Segment p1 p2 a1 a2 \<lparr>kw_numpoints = None, kw_r = ro\<rparr>)) = 100"
  by (simp add: seg_curve_Segment seg_p_Segment Let_def length_bezier4 seg_numpoints_Segment)

lemma hd_seg_curve_default:
  "hd (seg_curve (Segment p1 p2 a1 a2 \<lparr>kw_numpoints = None, kw_r = ro\<rparr>)) = p1"
  by (simp add: seg_curve_Segment seg_p_Segment Let_def hd_bezier4 seg_numpoints_Segment)

lemma last_seg_curve_default:
  "last (seg_curve (Segment p1 p2 a1 a2 \<lparr>kw_numpoints = None, kw_r = ro\<rparr>)) = p2"
  by (simp add: seg_curve_Segment seg_p_Segment Let_def last_bezier4 seg_numpoints_Segment)

lemma hd_concat: "xss \<noteq> [] \<Longrightarrow> hd xss \<noteq> [] \<Longrightarrow> hd (concat xss) = hd (hd xss)"
  by (cases xss) auto

lemma last_concat: "xss \<noteq> [] \<Longrightarrow> last xss \<noteq> [] \<Longrightarrow> last (concat xss) = last (last xss)"
proof (induction xss)
  case Nil
  then show ?case by simp
next
  case (Cons a xss)
  show ?case
  proof (cases "xss = []")
    case True
    with Cons.prems show ?thesis by simp
  next
    case False
    with Cons.prems have l: "last xss \<noteq> []" by simp
    from False have "last xss \<in> set xss" by simp
    with l have "concat xss \<noteq> []" by auto
    with Cons.IH [OF False l] False show ?thesis by simp
  qed
qed

lemma get_curve_closed:
  assumes "2 \<le> length points"
  shows "\<exists>s c. get_curve points \<lparr>kw_numpoints = None, kw_r = ro\<rparr> = Inr (s, c)
           \<and> length c = 100 * (length points - 1)
           \<and> hd c = fst (hd points) \<and> last c = fst (last points)"
proof -
  define kw where "kw = \<lparr>kw_numpoints = None, kw_r = ro\<rparr>"
  define m where "m = length points - 1"
  define mk where "mk = (\<lambda>i. Segment (fst (points ! i)) (fst (points ! (i + 1)))
                                      (snd (points ! i)) (snd (points ! (i + 1))) kw)"
  define segs where "segs = map mk [0..<m]"
  define curves where "curves = map seg_curve segs"
  have m: "0 < m" "length points = Suc m"
    using assms by (simp_all add: m_def)
  have ne: "segs \<noteq> []"
    using m by (simp add: segs_def)
  have gc: "get_curve points kw = Inr (segs, concat curves)"
    using ne by (simp add: get_curve_def Let_def segs_def mk_def m_def curves_def)
  have len: "length (seg_curve (mk i)) = 100" for i
    by (simp add: mk_def kw_def length_seg_curve_default)
  have cne: "curves \<noteq> []"
    using ne by (simp add: curves_def)
  have "map length curves = replicate m 100"
    by (rule replicate_eqI) (auto simp: curves_def segs_def len)
  then have "sum_list (map length curves) = 100 * m"
    by (simp only: sum_list_replicate) simp
  then have lc: "length (concat curves) = 100 * m"
    by (simp only: length_concat)
  have hs: "hd curves = seg_curve (mk 0)"
    using m by (simp add: curves_def segs_def hd_map upt_conv_Cons)
  have ls: "last curves = seg_curve (mk (m - 1))"
    using m by (simp add: curves_def segs_def last_map)
  have hne: "hd curves \<noteq> []"
    using len [of 0] unfolding hs by auto
  have lne: "last curves \<noteq> []"
    using len [of "m - 1"] unfolding ls by auto
  have h: "hd (concat curves) = fst (points ! 0)"
    unfolding hd_concat [OF cne hne] hs
    by (simp add: mk_def kw_def hd_seg_curve_default)
  have "last (concat curves) = fst (points ! (m - 1 + 1))"
    unfolding last_concat [OF cne lne] ls
    by (simp add: mk_def kw_def last_seg_curve_default)
  then have l: "last (concat curves) = fst (points ! m)"
    using m by simp
  have pne: "points \<noteq> []"
    using m by auto
  have p0: "points ! 0 = hd points"
    using pne by (simp add: hd_conv_nth)
  have pm: "points ! m = last points"
    using pne m by (simp add: last_conv_nth)
  have "get_curve points kw = Inr (segs, concat curves)
        \<and> length (concat curves) = 100 * m
        \<and> hd (concat curves) = fst (hd points) \<and> last (concat curves) = fst (last points)"
    using gc lc h l by (simp only: p0 pm)
  then show ?thesis
    unfolding kw_def m_def by blast
qed


lemma get_bezier_curve_closed:
  assumes "a \<noteq> []"
  shows "\<exists>x y a3. get_bezier_curve a rad edgy = Inr (x, y, a3)
           \<and> length x = 100 * length a \<and> length y = 100 * length a
           \<and> hd x = fst (hd (ccw_sort a)) \<and> hd y = snd (hd (ccw_sort a))
           \<and> last x = fst (hd (ccw_sort a)) \<and> last y = snd (hd (ccw_sort a))
           \<and> map fst a3 = ccw_sort a @ [hd (ccw_sort a)]
           \<and> snd (last a3) = snd (hd a3)"
proof -
  define p where "p = arctan edgy / pi + 1 / 2"
  define a1 where "a1 = ccw_sort a"
  define a2 where "a2 = a1 @ [a1 ! 0]"
  define ang1 where
    "ang1 = map (\<lambda>w. if 0 \<le> w then w else w + 2 * pi) (map (\<lambda>v. arctan2 (snd v) (fst v)) (diff a2))"
  define ang3 where
    "ang3 = map2 (\<lambda>u v. p * u + (1 - p) * v + (if pi < \<bar>v - u\<bar> then pi else 0)) ang1 (roll1 ang1)"
  define ang4 where "ang4 = ang3 @ [ang3 ! 0]"
  define a3 where "a3 = zip a2 ang4"
  have pos: "0 < length a"
    using assms by simp
  have n1: "length a1 = length a"
    by (simp add: a1_def length_ccw_sort)
  have n2: "a1 \<noteq> []"
    using pos n1 by auto
  have la2: "length a2 = Suc (length a)"
    by (simp add: a2_def n1)
  have a2ne: "a2 \<noteq> []"
    by (simp add: a2_def)
  have la3: "length ang3 = length a"
    by (simp add: ang3_def ang1_def length_diff length_roll1 la2)
  have ang3_ne: "ang3 \<noteq> []"
    using la3 pos by auto
  have la4: "length ang4 = Suc (length a)"
    by (simp add: ang4_def la3)
  have a4ne: "ang4 \<noteq> []"
    by (simp add: ang4_def)
  have leq: "length a2 = length ang4"
    by (simp only: la2 la4)
  have len3: "length a3 = Suc (length a)"
    by (simp add: a3_def la2 la4)
  have two: "2 \<le> length a3"
    unfolding len3 using assms by (cases a) simp_all
  have h1: "a1 ! 0 = hd a1"
    using n2 by (simp add: hd_conv_nth)
  have h3: "ang3 ! 0 = hd ang3"
    using ang3_ne by (simp add: hd_conv_nth)
  have fst3: "map fst a3 = a1 @ [hd a1]"
    unfolding a3_def map_fst_zip [OF leq] by (simp add: a2_def h1)
  have hd3: "hd a3 = (hd a1, hd ang3)"
    unfolding a3_def hd_zip [OF a2ne a4ne] using n2 ang3_ne by (simp add: a2_def ang4_def)
  have last3: "last a3 = (hd a1, hd ang3)"
    unfolding a3_def last_zip [OF a2ne a4ne leq] by (simp add: a2_def ang4_def h1 h3)
  obtain s c where sc: "get_curve a3 \<lparr>kw_numpoints = None, kw_r = Some rad\<rparr> = Inr (s, c)"
      and lc: "length c = 100 * (length a3 - 1)"
      and hc: "hd c = fst (hd a3)" and lastc: "last c = fst (last a3)"
    using get_curve_closed [OF two, of "Some rad"] by blast
  have lc': "length c = 100 * length a"
    using lc len3 by simp
  have cne: "c \<noteq> []"
    using lc' pos by auto
  have unf: "get_bezier_curve a rad edgy =
      (if a1 = [] then Inl IndexError
       else case get_curve a3 \<lparr>kw_numpoints = None, kw_r = Some rad\<rparr> of
              Inl e \<Rightarrow> Inl e
            | Inr (s, c) \<Rightarrow> Inr (map fst c, map snd c, a3))"
    unfolding get_bezier_curve_def Let_def a3_def ang4_def ang3_def ang1_def a2_def a1_def p_def
    by (rule refl)
  have res: "get_bezier_curve a rad edgy = Inr (map fst c, map snd c, a3)"
    unfolding unf using n2 sc by simp
  have "length (map fst c) = 100 * length a \<and> length (map snd c) = 100 * length a
        \<and> hd (map fst c) = fst (hd a1) \<and> hd (map snd c) = snd (hd a1)
        \<and> last (map fst c) = fst (hd a1) \<and> last (map snd c) = snd (hd a1)
        \<and> map fst a3 = a1 @ [hd a1]
        \<and> snd (last a3) = snd (hd a3)"
    using cne by (simp add: lc' hd_map last_map hc lastc hd3 last3 fst3)
  then show ?thesis
    unfolding a1_def using res by blast
qed

text \<open>
  Claim C6. For a point set of at least three points \<open>get_bezier_curve\<close> returns a closed
  curve: its first sample equals its last sample. Both are the first point of the sorted
  sequence, which is appended again at its end, and the last row of the returned point
  array carries the same blended angle as the first row. The curve has 100 samples for
  each input point.
\<close>

theorem get_bezier_curve_closed_loop:
  assumes "3 \<le> length a"
  shows "\<exists>x y a3. get_bezier_curve a rad edgy = Inr (x, y, a3)
           \<and> length x = 100 * length a \<and> length y = 100 * length a
           \<and> hd x = last x \<and> hd y = last y
           \<and> (hd x, hd y) = hd (ccw_sort a)
           \<and> map fst a3 = ccw_sort a @ [hd (ccw_sort a)]
           \<and> snd (last a3) = snd (hd a3)"
proof -
  from assms have "a \<noteq> []" by auto
  from get_bezier_curve_closed [OF this, of rad edgy] show ?thesis
    by (metis prod.collapse)
qed

theorem get_bezier_curve_closed_loop_witness:
  "3 \<le> length [(0 :: real, 0 :: real), (1, 0), (0, 1)]
   \<and> (\<exists>x y a3. get_bezier_curve [(0, 0), (1, 0), (0, 1)] (1 / 5) 0 = Inr (x, y, a3)
         \<and> length x = 300 \<and> length y = 300 \<and> hd x = last x \<and> hd y = last y)"
proof -
  have h: "3 \<le> length [(0 :: real, 0 :: real), (1, 0), (0, 1)]" by simp
  from get_bezier_curve_closed_loop [OF h, of "1 / 5" 0] show ?thesis
    by auto
qed

section \<open>Bounded resampling\<close>

lemma advance_advance: "advance a (advance b g) = advance (a + b) g"
  by (rule ext) (simp add: advance_def ac_simps)

lemma unit_draws_advance: "unit_draws g \<Longrightarrow> unit_draws (advance k g)"
  by (simp add: unit_draws_def advance_def)

lemma length_rand_rows: "length (rand_rows n g) = n"
  by (simp add: rand_rows_def)

lemma rand_rows_unit:
  "unit_draws g \<Longrightarrow> q \<in> set (rand_rows n g)
     \<Longrightarrow> 0 \<le> fst q \<and> fst q < 1 \<and> 0 \<le> snd q \<and> snd q < 1"
  by (auto simp: rand_rows_def unit_draws_def)

lemma mindst_or_pos:
  "0 < n \<Longrightarrow> \<exists>md. mindst_or mindst n = Inr md \<and> md \<noteq> 0"
  by (cases mindst) (auto simp: mindst_or_def)

lemma mindst_or_Some: "md \<noteq> 0 \<Longrightarrow> mindst_or (Some md) n = Inr md"
  by (simp add: mindst_or_def)

lemma get_random_points_step:
  assumes "0 < n" "mindst_or mindst n = Inr md"
  shows "get_random_points n scale mindst rec g =
           (if list_all (\<lambda>v. md \<le> v) (consecutive_distances (ccw_sort (rand_rows (nat n) g)))
               \<or> 200 \<le> rec
            then Inr (map (pscale scale) (rand_rows (nat n) g), advance (2 * nat n) g)
            else get_random_points n scale (Some md) (rec + 1) (advance (2 * nat n) g))"
  using assms
  by (simp add: get_random_points.simps [of n scale mindst rec g] random_rand_def)

lemma get_random_points_retries:
  assumes n: "0 < n" and md: "mindst_or mindst n = Inr md" "md \<noteq> 0"
  shows "\<exists>k\<le>j.
           get_random_points n scale mindst (200 - int j) g =
             Inr (map (pscale scale) (rand_rows (nat n) (advance (2 * nat n * k) g)),
                  advance (2 * nat n * Suc k) g)
           \<and> (list_all (\<lambda>v. md \<le> v)
                 (consecutive_distances (ccw_sort (rand_rows (nat n) (advance (2 * nat n * k) g))))
               \<or> k = j)"
  using md
proof (induction j arbitrary: g mindst)
  case 0
  have "get_random_points n scale mindst 200 g =
          Inr (map (pscale scale) (rand_rows (nat n) g), advance (2 * nat n) g)"
    by (simp add: get_random_points_step [OF n "0.prems"(1)])
  moreover have "advance 0 g = g"
    by (simp add: advance_def)
  ultimately show ?case by simp
next
  case (Suc j)
  let ?ok = "list_all (\<lambda>v. md \<le> v) (consecutive_distances (ccw_sort (rand_rows (nat n) g)))"
  have a0: "advance 0 g = g"
    by (simp add: advance_def)
  show ?case
  proof (cases ?ok)
    case True
    then have "get_random_points n scale mindst (200 - int (Suc j)) g =
          Inr (map (pscale scale) (rand_rows (nat n) g), advance (2 * nat n) g)"
      by (simp add: get_random_points_step [OF n Suc.prems(1)])
    with True a0 show ?thesis
      by (intro exI [of _ 0]) simp
  next
    case False
    let ?g = "advance (2 * nat n) g"
    have rec: "200 - int (Suc j) + 1 = 200 - int j"
      by simp
    have step: "get_random_points n scale mindst (200 - int (Suc j)) g =
          get_random_points n scale (Some md) (200 - int j) ?g"
      using False by (simp add: get_random_points_step [OF n Suc.prems(1)] rec)
    from Suc.IH [OF mindst_or_Some [OF Suc.prems(2)] Suc.prems(2), of ?g]
    obtain k where k: "k \<le> j"
      and r: "get_random_points n scale (Some md) (200 - int j) ?g =
             Inr (map (pscale scale) (rand_rows (nat n) (advance (2 * nat n * k) ?g)),
                  advance (2 * nat n * Suc k) ?g)"
      and ok: "list_all (\<lambda>v. md \<le> v)
                 (consecutive_distances (ccw_sort (rand_rows (nat n) (advance (2 * nat n * k) ?g))))
               \<or> k = j"
      by blast
    have e1: "advance (2 * nat n * k) ?g = advance (2 * nat n * Suc k) g"
      by (simp add: advance_advance ac_simps)
    have e2: "advance (2 * nat n * Suc k) ?g = advance (2 * nat n * Suc (Suc k)) g"
      by (simp add: advance_advance ac_simps)
    show ?thesis
      using k r ok unfolding step e1 e2
      by (intro exI [of _ "Suc k"]) simp
  qed
qed

lemma get_random_points_returns:
  assumes "0 < n" and "unit_draws g"
  shows "\<exists>k md a g'.
           k \<le> 200
           \<and> mindst_or mindst n = Inr md
           \<and> a = rand_rows (nat n) (advance (2 * nat n * k) g)
           \<and> g' = advance (2 * nat n * (k + 1)) g
           \<and> get_random_points n scale mindst 0 g = Inr (map (pscale scale) a, g')
           \<and> length (map (pscale scale) a) = nat n
           \<and> (\<forall>q \<in> set a. 0 \<le> fst q \<and> fst q < 1 \<and> 0 \<le> snd q \<and> snd q < 1)
           \<and> (list_all (\<lambda>v. md \<le> v) (consecutive_distances (ccw_sort a)) \<or> k = 200)"
proof -
  from assms have n: "0 < n" by simp
  from mindst_or_pos [OF n, of mindst] obtain md
    where md: "mindst_or mindst n = Inr md" "md \<noteq> 0" by blast
  from get_random_points_retries [OF n md, of 200 scale g]
  obtain k where k: "k \<le> 200"
    and r: "get_random_points n scale mindst 0 g =
             Inr (map (pscale scale) (rand_rows (nat n) (advance (2 * nat n * k) g)),
                  advance (2 * nat n * Suc k) g)"
    and ok: "list_all (\<lambda>v. md \<le> v)
                 (consecutive_distances (ccw_sort (rand_rows (nat n) (advance (2 * nat n * k) g))))
               \<or> k = 200"
    by auto
  have u: "\<forall>q \<in> set (rand_rows (nat n) (advance (2 * nat n * k) g)).
             0 \<le> fst q \<and> fst q < 1 \<and> 0 \<le> snd q \<and> snd q < 1"
    using rand_rows_unit [OF unit_draws_advance [OF assms(2)]] by blast
  show ?thesis
    using k md(1) r ok u
    by (intro exI [of _ k] exI [of _ md] exI [of _ "rand_rows (nat n) (advance (2 * nat n * k) g)"]
          exI [of _ "advance (2 * nat n * (k + 1)) g"])
       (simp add: length_rand_rows)
qed



section \<open>Heat sources\<close>

lemma generate_heat_source_shape_only:
  "generate_heat_source gf heatmap x y intensity size' sigma
     = generate_heat_source gf (zeros (shape0 heatmap) (shape1 heatmap)) x y intensity size' sigma"
  by (simp add: generate_heat_source_def zeros_like_def zeros_def)

lemma shape_iadd: "shape0 (iadd a b) = shape0 a" "shape1 (iadd a b) = shape1 a"
  by (simp_all add: iadd_def)

lemma sources_loop_sum:
  "sources_loop gf width height sigma k heatmap g =
     (case independent_stamps gf width height sigma k (shape0 heatmap) (shape1 heatmap) g of
        Inl e \<Rightarrow> Inl e
      | Inr (stamps, g') \<Rightarrow> Inr (foldl iadd heatmap stamps, g'))"
proof (induction k arbitrary: heatmap g)
  case 0
  show ?case by simp
next
  case (Suc k)
  show ?case
    by (simp add: Suc.IH shape_iadd generate_heat_source_shape_only [of gf heatmap]
             split: sum.splits prod.splits)
qed

lemma stamp_cells:
  "\<exists>hs. generate_heat_source gf heatmap x y intensity size' sigma = Inr (gf sigma hs)
      \<and> shape0 hs = shape0 heatmap \<and> shape1 hs = shape1 heatmap
      \<and> length (flat hs) = shape0 heatmap * shape1 heatmap
      \<and> (\<forall>r < shape0 heatmap. \<forall>c < shape1 heatmap.
            flat hs ! (r * shape1 heatmap + c) =
              (if in_slice (shape0 heatmap) (y - size' div 2) (y + size' div 2 + 1) r
                  \<and> in_slice (shape1 heatmap) (x - size' div 2) (x + size' div 2 + 1) c
               then intensity else 0))"
proof -
  define hs where "hs = assign_block (zeros_like heatmap)
                          (y - size' div 2) (y + size' div 2 + 1)
                          (x - size' div 2) (x + size' div 2 + 1) intensity"
  have g: "generate_heat_source gf heatmap x y intensity size' sigma = Inr (gf sigma hs)"
    by (simp add: generate_heat_source_def hs_def Let_def)
  have s: "shape0 hs = shape0 heatmap" "shape1 hs = shape1 heatmap"
      "length (flat hs) = shape0 heatmap * shape1 heatmap"
    by (simp_all add: hs_def assign_block_def zeros_like_def zeros_def)
  have c: "flat hs ! (r * shape1 heatmap + c) =
              (if in_slice (shape0 heatmap) (y - size' div 2) (y + size' div 2 + 1) r
                  \<and> in_slice (shape1 heatmap) (x - size' div 2) (x + size' div 2 + 1) c
               then intensity else 0)"
    if "r < shape0 heatmap" "c < shape1 heatmap" for r c
  proof -
    have lt: "r * shape1 heatmap + c < shape0 heatmap * shape1 heatmap"
    proof -
      have "r * shape1 heatmap + c < r * shape1 heatmap + shape1 heatmap"
        using that by simp
      also have "\<dots> = Suc r * shape1 heatmap" by simp
      also have "\<dots> \<le> shape0 heatmap * shape1 heatmap"
        using that by (intro mult_le_mono1) simp
      finally show ?thesis .
    qed
    have d: "(r * shape1 heatmap + c) div shape1 heatmap = r"
      using that by simp
    have m: "(r * shape1 heatmap + c) mod shape1 heatmap = c"
      using that by simp
    have m': "c mod shape1 heatmap = c"
      using that by simp
    show ?thesis
      using lt by (simp add: hs_def assign_block_def zeros_like_def zeros_def d m m')
  qed
  show ?thesis
    using g s c by blast
qed

text \<open>
  Claim C4, as stated: a stamp region that extends beyond the canvas makes
  \<open>generate_heat_source\<close> fail with an index error. It does not. On a \<open>4 \<times> 4\<close> canvas
  with \<open>x = 3\<close>, \<open>y = 1\<close> and \<open>size = 5\<close> the region is rows \<open>-1..3\<close> and columns \<open>1..5\<close>;
  the row slice \<open>-1:4\<close> selects row \<open>3\<close> only, the column slice \<open>1:6\<close> is clipped to
  columns \<open>1..3\<close>, and the call returns the blurred buffer.
\<close>

theorem generate_heat_source_out_of_bounds_counterexample:
  "\<not> stamp_region_inside (zeros 4 4) 3 1 5
   \<and> generate_heat_source gaussian_radius0 (zeros 4 4) 3 1 255 5 (1 / 10)
       = Inr \<lparr>shape0 = 4, shape1 = 4,
              flat = [0, 0, 0, 0,  0, 0, 0, 0,  0, 0, 0, 0,  0, 255, 255, 255]\<rparr>
   \<and> generate_heat_source gaussian_radius0 (zeros 4 4) 3 1 255 5 (1 / 10) \<noteq> Inl IndexError"
  by (simp add: stamp_region_inside_def generate_heat_source_def gaussian_radius0_def
        zeros_like_def zeros_def assign_block_def in_slice_def slice_bound_def Let_def upt_rec)

text \<open>
  Claim C4, amended. \<open>generate_heat_source\<close> never fails, whatever \<open>x\<close>, \<open>y\<close> and \<open>size\<close>
  are: it returns the blur of a buffer of the canvas shape in which cell \<open>[r, c]\<close> holds
  \<open>intensity\<close> when \<open>r\<close> is selected by the slice \<open>y - size // 2 : y + size // 2 + 1\<close> of
  the rows and \<open>c\<close> by the slice \<open>x - size // 2 : x + size // 2 + 1\<close> of the columns, and
  \<open>0\<close> otherwise. The slices follow Python's rules (a negative bound counts from the end,
  bounds are clipped to the extent), so a region that leaves the canvas is cut, possibly
  to nothing.
\<close>

theorem generate_heat_source_clips:
  "\<exists>hs. generate_heat_source gf heatmap x y intensity size' sigma = Inr (gf sigma hs)
      \<and> shape0 hs = shape0 heatmap \<and> shape1 hs = shape1 heatmap
      \<and> length (flat hs) = shape0 heatmap * shape1 heatmap
      \<and> (\<forall>r < shape0 heatmap. \<forall>c < shape1 heatmap.
            flat hs ! (r * shape1 heatmap + c) =
              (if in_slice (shape0 heatmap) (y - size' div 2) (y + size' div 2 + 1) r
                  \<and> in_slice (shape1 heatmap) (x - size' div 2) (x + size' div 2 + 1) c
               then intensity else 0))"
  by (rule stamp_cells)

theorem generate_heat_source_clips_witness:
  "(3 :: nat) < shape0 (zeros 4 4) \<and> (1 :: nat) < shape1 (zeros 4 4)
   \<and> (0 :: nat) < shape0 (zeros 4 4) \<and> (0 :: nat) < shape1 (zeros 4 4)
   \<and> (\<exists>hs. generate_heat_source gaussian_radius0 (zeros 4 4) 3 1 255 5 (1 / 10)
              = Inr (gaussian_radius0 (1 / 10) hs)
         \<and> flat hs ! (3 * 4 + 1) = 255 \<and> flat hs ! (0 * 4 + 0) = 0)"
proof -
  have b: "(3 :: nat) < shape0 (zeros 4 4)" "(1 :: nat) < shape1 (zeros 4 4)"
      "(0 :: nat) < shape0 (zeros 4 4)" "(0 :: nat) < shape1 (zeros 4 4)"
    by (simp_all add: zeros_def)
  from generate_heat_source_clips [of gaussian_radius0 "zeros 4 4" 3 1 255 5 "1 / 10"]
  obtain hs where g: "generate_heat_source gaussian_radius0 (zeros 4 4) 3 1 255 5 (1 / 10)
              = Inr (gaussian_radius0 (1 / 10) hs)"
    and c: "\<forall>r < shape0 (zeros 4 4). \<forall>c < shape1 (zeros 4 4).
            flat hs ! (r * shape1 (zeros 4 4) + c) =
              (if in_slice (shape0 (zeros 4 4)) (1 - 5 div 2) (1 + 5 div 2 + 1) r
                  \<and> in_slice (shape1 (zeros 4 4)) (3 - 5 div 2) (3 + 5 div 2 + 1) c
               then 255 else 0)"
    by blast
  from c [rule_format, OF b(1) b(2)] have "flat hs ! (3 * 4 + 1) = 255"
    by (simp add: zeros_def in_slice_def slice_bound_def)
  moreover from c [rule_format, OF b(3) b(4)] have "flat hs ! (0 * 4 + 0) = 0"
    by (simp add: zeros_def in_slice_def slice_bound_def)
  ultimately show ?thesis
    using g b by blast
qed

text \<open>
  Claim C10. \<open>generate_heat_source\<close> uses the buffer it is given for its shape only: the
  result is the one obtained from a zero buffer of the same shape (and the function
  returns a new buffer, the argument being a value that nothing can change). Hence the
  loop over \<open>num_sources\<close> of the compositor, started on a zero canvas, yields the
  elementwise sum of the stamps that the same draws produce independently, each on its
  own zero canvas.
\<close>

theorem generate_heat_source_frame:
  "generate_heat_source gf heatmap x y intensity size' sigma
     = generate_heat_source gf (zeros (shape0 heatmap) (shape1 heatmap)) x y intensity size' sigma
   \<and> sources_loop gf width height source_sigma k (zeros rows cols) g =
       (case independent_stamps gf width height source_sigma k rows cols g of
          Inl e \<Rightarrow> Inl e
        | Inr (stamps, g') \<Rightarrow> Inr (foldl iadd (zeros rows cols) stamps, g'))"
proof -
  have "shape0 (zeros rows cols) = rows" "shape1 (zeros rows cols) = cols"
    by (simp_all add: zeros_def)
  with sources_loop_sum [of gf width height source_sigma k "zeros rows cols" g]
  show ?thesis
    by (simp add: generate_heat_source_shape_only [of gf heatmap])
qed

section \<open>Edges\<close>

lemma advance_const: "advance k (\<lambda>i. c) = (\<lambda>i. c)"
  by (simp add: advance_def)

lemma rand_rows_const: "rand_rows n (\<lambda>i. c) = replicate n (c, c)"
  by (simp add: rand_rows_def map_replicate_const)

lemma get_random_points_const:
  assumes "0 < n" and "0 \<le> c" and "c < 1"
  shows "get_random_points n scale mindst 0 (\<lambda>i. c)
           = Inr (replicate (nat n) (scale * c, scale * c), \<lambda>i. c)"
proof -
  have u: "unit_draws (\<lambda>i. c)"
    using assms by (simp add: unit_draws_def)
  from get_random_points_returns [OF assms(1) u, of mindst scale]
  show ?thesis
    by (auto simp: advance_const rand_rows_const pscale_def)
qed

lemma edge_points_range:
  assumes "0 < num_points" and "unit_draws g"
  shows "\<exists>pts g'. edge_random_points heatmap num_points g = Inr (pts, g')
           \<and> length pts = nat num_points
           \<and> (\<forall>q \<in> set pts. 0 \<le> fst q \<and> fst q \<le> real (shape0 heatmap)
                            \<and> 0 \<le> snd q \<and> snd q \<le> real (shape0 heatmap))"
proof -
  from get_random_points_returns [OF assms, of None "real (shape0 heatmap)"]
  obtain a g' where r: "get_random_points num_points (real (shape0 heatmap)) None 0 g
                          = Inr (map (pscale (real (shape0 heatmap))) a, g')"
    and l: "length (map (pscale (real (shape0 heatmap))) a) = nat num_points"
    and u: "\<forall>q \<in> set a. 0 \<le> fst q \<and> fst q < 1 \<and> 0 \<le> snd q \<and> snd q < 1"
    by blast
  have "0 \<le> fst (pscale (real (shape0 heatmap)) q) \<and> fst (pscale (real (shape0 heatmap)) q) \<le> real (shape0 heatmap)
        \<and> 0 \<le> snd (pscale (real (shape0 heatmap)) q) \<and> snd (pscale (real (shape0 heatmap)) q) \<le> real (shape0 heatmap)"
    if "q \<in> set a" for q
  proof -
    from u that have q: "0 \<le> fst q" "fst q < 1" "0 \<le> snd q" "snd q < 1" by auto
    have h: "0 \<le> real (shape0 heatmap)" by simp
    show ?thesis
      using q h by (simp add: pscale_def mult_left_le)
  qed
  with r l show ?thesis
    by (auto simp: edge_random_points_def)
qed

text \<open>
  Claim C5, as stated: every iteration of \<open>add_random_edges\<close> samples its points with
  \<open>scale\<close> equal to the canvas width, so that the coordinates range over \<open>[0, width]\<close>.
  The scale is \<open>heatmap.shape[0]\<close>, the number of rows. On a canvas of 4 rows and 2
  columns with every draw equal to \<open>0.9\<close> the sampled coordinates are \<open>3.6\<close>, not \<open>1.8\<close>,
  and exceed the width.
\<close>

theorem add_random_edges_scale_width_counterexample:
  "edge_random_points (zeros 4 2) 3 (\<lambda>i. 9 / 10)
     = Inr (replicate 3 (18 / 5, 18 / 5), \<lambda>i. 9 / 10)
   \<and> get_random_points 3 (real (shape1 (zeros 4 2))) None 0 (\<lambda>i. 9 / 10)
     = Inr (replicate 3 (9 / 5, 9 / 5), \<lambda>i. 9 / 10)
   \<and> edge_random_points (zeros 4 2) 3 (\<lambda>i. 9 / 10)
     \<noteq> get_random_points 3 (real (shape1 (zeros 4 2))) None 0 (\<lambda>i. 9 / 10)
   \<and> \<not> (18 / 5 \<le> real (shape1 (zeros 4 2)))"
proof -
  have a: "get_random_points 3 4 None 0 (\<lambda>i. 9 / 10)
     = Inr (replicate (nat 3) (4 * (9 / 10), 4 * (9 / 10)), \<lambda>i. 9 / 10)"
    by (rule get_random_points_const) simp_all
  have b: "get_random_points 3 2 None 0 (\<lambda>i. 9 / 10)
     = Inr (replicate (nat 3) (2 * (9 / 10), 2 * (9 / 10)), \<lambda>i. 9 / 10)"
    by (rule get_random_points_const) simp_all
  show ?thesis
    by (simp add: edge_random_points_def zeros_def a b)
qed


text \<open>
  Claim C5, amended. Every iteration of \<open>add_random_edges\<close> samples its point set via
  \<open>get_random_points\<close> with \<open>n = num_points\<close> and \<open>scale\<close> equal to the canvas height
  (\<open>heatmap.shape[0]\<close>, the number of rows), then fits the curve with radius \<open>0.2\<close> and
  edginess \<open>0\<close> and plots its samples. For a positive \<open>num_points\<close> and unit-interval
  draws the sampling succeeds and every sampled coordinate lies in \<open>[0, height]\<close>,
  whatever the width is.
\<close>

theorem add_random_edges_scale_is_height:
  "edge_random_points heatmap num_points g
     = get_random_points num_points (real (shape0 heatmap)) None 0 g
   \<and> edges_loop heatmap (Suc k) edge_intensity num_points edges_map g =
       (case get_random_points num_points (real (shape0 heatmap)) None 0 g of
          Inl e \<Rightarrow> Inl e
        | Inr (random_points, g') \<Rightarrow>
            (case get_bezier_curve random_points (1 / 5) 0 of
               Inl e \<Rightarrow> Inl e
             | Inr (x, y, _) \<Rightarrow>
                 edges_loop heatmap k edge_intensity num_points
                   (foldl (plot heatmap edge_intensity) edges_map (zip x y)) g'))
   \<and> (0 < num_points \<and> unit_draws g \<longrightarrow>
        (\<exists>pts g'. edge_random_points heatmap num_points g = Inr (pts, g')
           \<and> length pts = nat num_points
           \<and> (\<forall>q \<in> set pts. 0 \<le> fst q \<and> fst q \<le> real (shape0 heatmap)
                            \<and> 0 \<le> snd q \<and> snd q \<le> real (shape0 heatmap))))"
  using edge_points_range [of num_points g heatmap]
  by (simp add: edge_random_points_def)

theorem add_random_edges_scale_is_height_witness:
  "(0 :: int) < 3 \<and> unit_draws (\<lambda>i. 9 / 10)
   \<and> (\<exists>pts g'. edge_random_points (zeros 4 2) 3 (\<lambda>i. 9 / 10) = Inr (pts, g')
         \<and> length pts = nat 3
         \<and> (\<forall>q \<in> set pts. 0 \<le> fst q \<and> fst q \<le> real (shape0 (zeros 4 2))
                          \<and> 0 \<le> snd q \<and> snd q \<le> real (shape0 (zeros 4 2))))"
proof -
  have h: "(0 :: int) < 3" "unit_draws (\<lambda>i. 9 / 10)"
    by (simp_all add: unit_draws_def)
  from add_random_edges_scale_is_height [of "zeros 4 2" 3 "\<lambda>i. 9 / 10"] h
  show ?thesis
    by blast
qed

section \<open>The compositor: degenerate inputs\<close>

lemma zeros_simps:
  "shape0 (zeros h w) = h" "shape1 (zeros h w) = w" "flat (zeros h w) = replicate (h * w) 0"
  by (simp_all add: zeros_def)

lemma gaussian_like_zeros:
  assumes "gaussian_like gf"
  shows "gf sigma (zeros h w) = zeros h w"
proof -
  let ?b = "gf sigma (zeros h w)"
  from assms have s: "shape0 ?b = h" "shape1 ?b = w" "length (flat ?b) = h * w"
    by (simp_all add: gaussian_like_def zeros_simps)
  have "\<forall>v \<in> set (flat (zeros h w)). v = 0"
    by (simp add: zeros_simps)
  with assms have "\<forall>v \<in> set (flat ?b). v = 0"
    unfolding gaussian_like_def by blast
  then have "replicate (length (flat ?b)) 0 = flat ?b"
    by (rule replicate_length_same)
  with s have "flat ?b = replicate (h * w) 0"
    by simp
  with s show ?thesis
    by (simp add: zeros_def)
qed

lemma amax_zeros: "0 < h * w \<Longrightarrow> amax (zeros h w) = Inr 0"
  by (simp add: amax_def zeros_simps)

lemma normalize_zeros: "0 < h * w \<Longrightarrow> normalize_max (zeros h w) = Inr (zeros h w)"
  by (simp add: normalize_max_def amax_zeros)

lemma iadd_zeros: "iadd (zeros h w) (zeros h w) = zeros h w"
  by (simp add: iadd_def zeros_def)

lemma final_rescale_zeros:
  "0 < h * w \<Longrightarrow>
     final_rescale (zeros h w) = Inr \<lparr>shape0 = h, shape1 = w, flat = replicate (h * w) 0\<rparr>"
  by (simp add: final_rescale_def amax_zeros astype_uint8_def clip_def zeros_simps trunc_def)

lemma generate_no_iterations:
  assumes gf: "gaussian_like gf" and pos: "0 < width" "0 < height"
    and none: "num_sources \<le> 0" "num_edges \<le> 0"
  shows "generate_thermal_heatmap gf width height num_sources num_edges edge_sigma source_sigma g
           = Inr (\<lparr>shape0 = nat height, shape1 = nat width,
                    flat = replicate (nat height * nat width) 0\<rparr>, g)"
proof -
  from pos have p: "0 < nat height * nat width"
    by simp
  from pos have z: "np_zeros height width = Inr (zeros (nat height) (nat width))"
    by (simp add: np_zeros_def)
  from none have n: "nat num_sources = 0" "nat num_edges = 0"
    by simp_all
  have c: "combined_buffer gf width height num_sources num_edges edge_sigma source_sigma g
             = Inr (zeros (nat height) (nat width), g)"
    by (simp add: combined_buffer_def z n add_random_edges_def zeros_like_def zeros_simps
          gaussian_like_zeros [OF gf] normalize_zeros [OF p] iadd_zeros)
  show ?thesis
    by (simp add: generate_thermal_heatmap_def c final_rescale_zeros [OF p])
qed

lemma flat_iadd_empty: "flat a = [] \<Longrightarrow> flat (iadd a b) = []"
  by (simp add: iadd_def)

lemma sources_loop_empty:
  "flat heatmap = [] \<Longrightarrow> sources_loop gf width height sigma k heatmap g = Inr (hm, g')
     \<Longrightarrow> flat hm = []"
proof (induction k arbitrary: heatmap g)
  case 0
  then show ?case by simp
next
  case (Suc k)
  from Suc.prems(2) obtain hs g3 where
    "sources_loop gf width height sigma k (iadd heatmap hs) g3 = Inr (hm, g')"
    by (auto split: sum.splits prod.splits)
  with Suc.IH [OF flat_iadd_empty [OF Suc.prems(1)]] show ?case
    by blast
qed

lemma normalize_empty: "flat a = [] \<Longrightarrow> normalize_max a = Inl ValueError"
  by (simp add: normalize_max_def amax_def)

lemma generate_negative:
  "width < 0 \<or> height < 0 \<Longrightarrow>
     generate_thermal_heatmap gf width height num_sources num_edges edge_sigma source_sigma g
       = Inl ValueError"
  by (auto simp: generate_thermal_heatmap_def combined_buffer_def np_zeros_def)

lemma generate_empty:
  assumes "width = 0 \<or> height = 0"
  shows "\<exists>e. generate_thermal_heatmap gf width height num_sources num_edges edge_sigma source_sigma g
                = Inl e"
proof (cases "width < 0 \<or> height < 0")
  case True
  then show ?thesis
    using generate_negative by blast
next
  case False
  with assms have z: "np_zeros height width = Inr (zeros (nat height) (nat width))"
    and e: "flat (zeros (nat height) (nat width)) = []"
    by (auto simp: np_zeros_def zeros_simps)
  have "\<exists>e. combined_buffer gf width height num_sources num_edges edge_sigma source_sigma g = Inl e"
  proof (cases "sources_loop gf width height source_sigma (nat num_sources)
                  (zeros (nat height) (nat width)) g")
    case (Inl a)
    then show ?thesis
      by (simp add: combined_buffer_def z)
  next
    case (Inr r)
    then obtain hm g1 where r: "sources_loop gf width height source_sigma (nat num_sources)
                  (zeros (nat height) (nat width)) g = Inr (hm, g1)"
      by (cases r) auto
    from sources_loop_empty [OF e r] have "normalize_max hm = Inl ValueError"
      by (rule normalize_empty)
    then show ?thesis
      by (simp add: combined_buffer_def z r Let_def split: sum.splits prod.splits)
  qed
  then show ?thesis
    by (auto simp: generate_thermal_heatmap_def)
qed

lemma generate_negative_counts:
  "generate_thermal_heatmap gf width height num_sources num_edges edge_sigma source_sigma g
     = generate_thermal_heatmap gf width height (max 0 num_sources) (max 0 num_edges)
         edge_sigma source_sigma g"
proof -
  have n: "nat (max 0 i) = nat i" for i :: int
    by (simp add: max_def)
  have a: "add_random_edges hm (max 0 num_edges) ei np g1 = add_random_edges hm num_edges ei np g1"
    for hm ei np g1
    by (simp add: add_random_edges_def n)
  have b: "nat (max 0 num_sources) = nat num_sources"
    by (rule n)
  show ?thesis
    unfolding generate_thermal_heatmap_def combined_buffer_def a b by (rule refl)
qed

lemma gaussian_like_radius0: "gaussian_like gaussian_radius0"
  by (simp add: gaussian_like_def gaussian_radius0_def)



text \<open>
  Claim C3, as stated: a call with \<open>width \<le> 0\<close>, \<open>height \<le> 0\<close>, \<open>num_sources < 0\<close> or
  \<open>num_edges < 0\<close> is rejected before any buffer is allocated. The function validates
  nothing. With \<open>num_sources = -1\<close> and \<open>num_edges = -1\<close> on a \<open>2 \<times> 2\<close> canvas both loops
  run over an empty range and the call returns the all-zero heatmap.
\<close>

theorem generate_thermal_heatmap_rejects_counterexample:
  "(-1 :: int) < 0
   \<and> generate_thermal_heatmap gaussian_radius0 2 2 (-1) (-1) (1 / 10) (1 / 10) (\<lambda>i. 1 / 2)
       = Inr (\<lparr>shape0 = 2, shape1 = 2, flat = [0, 0, 0, 0]\<rparr>, \<lambda>i. 1 / 2)"
proof -
  have "generate_thermal_heatmap gaussian_radius0 2 2 (-1) (-1) (1 / 10) (1 / 10) (\<lambda>i. 1 / 2)
       = Inr (\<lparr>shape0 = nat 2, shape1 = nat 2, flat = replicate (nat 2 * nat 2) 0\<rparr>, \<lambda>i. 1 / 2)"
    by (rule generate_no_iterations [OF gaussian_like_radius0]) simp_all
  moreover have "replicate (nat 2 * nat 2) (0 :: 8 word) = [0, 0, 0, 0]"
    by (simp add: eval_nat_numeral)
  ultimately show ?thesis
    by simp
qed

text \<open>
  Claim C3, amended. \<open>generate_thermal_heatmap\<close> checks none of its arguments itself. A
  negative \<open>width\<close> or \<open>height\<close> makes the call fail with the \<open>ValueError\<close> that the
  allocation \<open>np.zeros((height, width))\<close> raises. A \<open>width\<close> or \<open>height\<close> of zero makes
  the call fail as well, after the allocation (at the latest when the maximum of the
  empty buffer is taken). A negative \<open>num_sources\<close> or \<open>num_edges\<close> is not rejected: the
  call behaves as with \<open>0\<close> in its place.
\<close>

theorem generate_thermal_heatmap_validation:
  "(width < 0 \<or> height < 0 \<longrightarrow>
      np_zeros height width = Inl ValueError
      \<and> generate_thermal_heatmap gf width height num_sources num_edges edge_sigma source_sigma g
          = Inl ValueError)
   \<and> (width = 0 \<or> height = 0 \<longrightarrow>
        (\<exists>e. generate_thermal_heatmap gf width height num_sources num_edges edge_sigma
                source_sigma g = Inl e))
   \<and> generate_thermal_heatmap gf width height num_sources num_edges edge_sigma source_sigma g
       = generate_thermal_heatmap gf width height (max 0 num_sources) (max 0 num_edges)
           edge_sigma source_sigma g"
proof (intro conjI impI)
  assume "width < 0 \<or> height < 0"
  then show "np_zeros height width = Inl ValueError"
    by (auto simp: np_zeros_def)
next
  assume "width < 0 \<or> height < 0"
  then show "generate_thermal_heatmap gf width height num_sources num_edges edge_sigma
               source_sigma g = Inl ValueError"
    by (rule generate_negative)
next
  assume "width = 0 \<or> height = 0"
  then show "\<exists>e. generate_thermal_heatmap gf width height num_sources num_edges edge_sigma
                source_sigma g = Inl e"
    by (rule generate_empty)
next
  show "generate_thermal_heatmap gf width height num_sources num_edges edge_sigma source_sigma g
       = generate_thermal_heatmap gf width height (max 0 num_sources) (max 0 num_edges)
           edge_sigma source_sigma g"
    by (rule generate_negative_counts)
qed

theorem generate_thermal_heatmap_validation_witness:
  "((-1 :: int) < 0 \<or> (5 :: int) < 0)
   \<and> generate_thermal_heatmap gaussian_radius0 (-1) 5 3 1 (1 / 10) (1 / 10) (\<lambda>i. 1 / 2)
       = Inl ValueError
   \<and> ((0 :: int) = 0 \<or> (5 :: int) = 0)
   \<and> (\<exists>e. generate_thermal_heatmap gaussian_radius0 0 5 3 1 (1 / 10) (1 / 10) (\<lambda>i. 1 / 2)
             = Inl e)"
proof -
  have a: "(-1 :: int) < 0 \<or> (5 :: int) < 0" and b: "(0 :: int) = 0 \<or> (5 :: int) = 0"
    by simp_all
  from generate_thermal_heatmap_validation
         [of "-1" 5 gaussian_radius0 3 1 "1 / 10" "1 / 10" "\<lambda>i. 1 / 2"] a
  have 1: "generate_thermal_heatmap gaussian_radius0 (-1) 5 3 1 (1 / 10) (1 / 10) (\<lambda>i. 1 / 2)
       = Inl ValueError"
    by blast
  from generate_thermal_heatmap_validation
         [of 0 5 gaussian_radius0 3 1 "1 / 10" "1 / 10" "\<lambda>i. 1 / 2"] b
  have 2: "\<exists>e. generate_thermal_heatmap gaussian_radius0 0 5 3 1 (1 / 10) (1 / 10) (\<lambda>i. 1 / 2)
             = Inl e"
    by blast
  from a b 1 2 show ?thesis
    by blast
qed

section \<open>The compositor: normalisation ceiling\<close>

lemma non_negative_zeros: "non_negative (zeros h w)"
  by (simp add: non_negative_def zeros_simps)

lemma non_negative_iadd:
  assumes "non_negative a" and "non_negative b"
  shows "non_negative (iadd a b)"
proof -
  have "0 \<le> v" if "v \<in> set (map2 (+) (flat a) (flat b))" for v
  proof -
    from that obtain p q where pq: "(p, q) \<in> set (zip (flat a) (flat b))" and v: "v = p + q"
      by auto
    from pq have "p \<in> set (flat a)" "q \<in> set (flat b)"
      by (auto dest: set_zip_leftD set_zip_rightD)
    with assms show ?thesis
      by (simp add: non_negative_def v)
  qed
  then show ?thesis
    by (simp add: non_negative_def iadd_def)
qed

lemma non_negative_gf: "gaussian_like gf \<Longrightarrow> non_negative a \<Longrightarrow> non_negative (gf sigma a)"
  unfolding gaussian_like_def non_negative_def by blast

lemma non_negative_assign_block:
  "non_negative a \<Longrightarrow> 0 \<le> v \<Longrightarrow> non_negative (assign_block a r0 r1 c0 c1 v)"
  by (auto simp: non_negative_def assign_block_def)

lemma non_negative_heat_source:
  assumes "gaussian_like gf" and "0 \<le> intensity"
    and "generate_heat_source gf heatmap x y intensity size' sigma = Inr hs"
  shows "non_negative hs"
  using assms(3)
  by (auto simp: generate_heat_source_def Let_def zeros_like_def
        intro!: non_negative_gf [OF assms(1)] non_negative_assign_block non_negative_zeros assms(2))

lemma unit_draws_randint: "unit_draws g \<Longrightarrow> randint lo hi g = Inr (x, g') \<Longrightarrow> unit_draws g'"
  by (auto simp: randint_def unit_draws_advance split: if_splits)

lemma uniform_200_255:
  assumes "unit_draws g" and "uniform 200 255 g = (v, g')"
  shows "200 \<le> v \<and> v < 255 \<and> unit_draws g'"
proof -
  from assms(2) have v: "v = 200 + 55 * g 0" and g': "g' = advance 1 g"
    by (simp_all add: uniform_def)
  from assms(1) have "0 \<le> g 0" "g 0 < 1"
    by (simp_all add: unit_draws_def)
  then have "200 \<le> v" "v < 255"
    by (simp_all add: v)
  moreover have "unit_draws g'"
    unfolding g' using assms(1) by (rule unit_draws_advance)
  ultimately show ?thesis
    by simp
qed

lemma sources_loop_non_negative:
  assumes gf: "gaussian_like gf"
  shows "unit_draws g \<Longrightarrow> non_negative heatmap
           \<Longrightarrow> sources_loop gf width height sigma k heatmap g = Inr (hm, g')
           \<Longrightarrow> non_negative hm"
proof (induction k arbitrary: heatmap g)
  case 0
  then show ?case by simp
next
  case (Suc k)
  from Suc.prems(3) obtain x g1 y g2 v g3 hs where
    x: "randint 10 (width - 10) g = Inr (x, g1)" and
    y: "randint 10 (height - 10) g1 = Inr (y, g2)" and
    u: "uniform 200 255 g2 = (v, g3)" and
    s: "generate_heat_source gf heatmap x y v 5 sigma = Inr hs" and
    r: "sources_loop gf width height sigma k (iadd heatmap hs) g3 = Inr (hm, g')"
    by (auto split: sum.splits prod.splits)
  from Suc.prems(1) x have "unit_draws g1" by (rule unit_draws_randint)
  then have "unit_draws g2" using y by (rule unit_draws_randint)
  with u have v: "200 \<le> v" and g3: "unit_draws g3"
    using uniform_200_255 by blast+
  from v have "0 \<le> v" by simp
  with gf s have "non_negative hs"
    using non_negative_heat_source by blast
  with Suc.prems(2) have "non_negative (iadd heatmap hs)"
    by (rule non_negative_iadd)
  with g3 r show ?case
    using Suc.IH by blast
qed

lemma in_set_update: "x \<in> set (xs[i := v]) \<Longrightarrow> x = v \<or> x \<in> set xs"
  using set_update_subset_insert [of xs i v] by auto

lemma non_negative_plot:
  "non_negative em \<Longrightarrow> 0 \<le> edge_intensity \<Longrightarrow> non_negative (plot heatmap edge_intensity em q)"
  by (auto simp: plot_def Let_def set_cell_def non_negative_def dest!: in_set_update)

lemma non_negative_foldl_plot:
  "non_negative em \<Longrightarrow> 0 \<le> edge_intensity
     \<Longrightarrow> non_negative (foldl (plot heatmap edge_intensity) em qs)"
  by (induction qs arbitrary: em) (simp_all add: non_negative_plot)

lemma edges_loop_non_negative:
  "non_negative em \<Longrightarrow> 0 \<le> edge_intensity
     \<Longrightarrow> edges_loop heatmap k edge_intensity num_points em g = Inr (em', g')
     \<Longrightarrow> non_negative em'"
proof (induction k arbitrary: em g)
  case 0
  then show ?case by simp
next
  case (Suc k)
  from Suc.prems(3) obtain x y g1 where
    "edges_loop heatmap k edge_intensity num_points
       (foldl (plot heatmap edge_intensity) em (zip x y)) g1 = Inr (em', g')"
    by (auto split: sum.splits prod.splits)
  with Suc.IH [OF non_negative_foldl_plot [OF Suc.prems(1,2)] Suc.prems(2)] show ?case
    by blast
qed

lemma normalize_non_negative:
  assumes "non_negative a" and "normalize_max a = Inr b"
  shows "non_negative b"
proof (cases "flat a = []")
  case True
  with assms(2) show ?thesis
    by (simp add: normalize_max_def amax_def)
next
  case False
  define m where "m = Max (set (flat a))"
  from False have "m \<in> set (flat a)"
    unfolding m_def by (intro Max_in) simp_all
  with assms(1) have "0 \<le> m"
    by (simp add: non_negative_def)
  from False assms(2) have b: "b = (if m \<noteq> 0 then np_divide a m else a)"
    by (auto simp: normalize_max_def amax_def m_def)
  show ?thesis
    using assms(1) \<open>0 \<le> m\<close> by (auto simp: b non_negative_def np_divide_def)
qed


lemma combined_buffer_non_negative:
  assumes gf: "gaussian_like gf" and g: "unit_draws g"
    and c: "combined_buffer gf width height num_sources num_edges edge_sigma source_sigma g
              = Inr (c, g')"
  shows "non_negative c"
proof -
  from c obtain hm0 hm g1 edges0 hm' edges where
    z: "np_zeros height width = Inr hm0" and
    s: "sources_loop gf width height source_sigma (nat num_sources) hm0 g = Inr (hm, g1)" and
    e: "add_random_edges hm num_edges 128 3 g1 = Inr (edges0, g')" and
    n1: "normalize_max hm = Inr hm'" and
    n2: "normalize_max (gf edge_sigma edges0) = Inr edges" and
    r: "c = iadd hm' edges"
    by (auto simp: combined_buffer_def Let_def split: sum.splits prod.splits)
  from z have "non_negative hm0"
    by (auto simp: np_zeros_def non_negative_zeros split: if_splits)
  with gf g s have "non_negative hm"
    using sources_loop_non_negative by blast
  with n1 have 1: "non_negative hm'"
    using normalize_non_negative by blast
  have "non_negative (zeros_like hm)"
    by (simp add: zeros_like_def non_negative_zeros)
  with e have "non_negative edges0"
    unfolding add_random_edges_def using edges_loop_non_negative [of _ 128] by fastforce
  with gf have "non_negative (gf edge_sigma edges0)"
    by (rule non_negative_gf)
  with n2 have 2: "non_negative edges"
    using normalize_non_negative by blast
  from 1 2 show ?thesis
    unfolding r by (rule non_negative_iadd)
qed

lemma word8_le_255: "(x :: 8 word) \<le> 255"
proof -
  have "(255 :: 8 word) = - 1" by simp
  then show ?thesis
    by (simp only: word_n1_ge)
qed

lemma final_rescale_max:
  assumes nn: "non_negative c" and nz: "\<exists>v \<in> set (flat c). v \<noteq> 0"
  shows "\<exists>out. final_rescale c = Inr out \<and> Max (set (flat out)) = 255
               \<and> shape0 out = shape0 c \<and> shape1 out = shape1 c"
proof -
  define m where "m = Max (set (flat c))"
  from nz have ne: "flat c \<noteq> []"
    by auto
  then have min: "m \<in> set (flat c)"
    unfolding m_def by (intro Max_in) simp_all
  from nz obtain v where v: "v \<in> set (flat c)" "v \<noteq> 0"
    by blast
  with nn have "0 < v"
    by (auto simp: non_negative_def less_le)
  moreover from v(1) have "v \<le> m"
    unfolding m_def by (intro Max_ge) simp_all
  ultimately have mpos: "0 < m"
    by simp
  define f where "f = (\<lambda>x :: real. (word_of_int (trunc (min 255 (max 0 (x / m * 255)))) :: 8 word))"
  define out where "out = \<lparr>shape0 = shape0 c, shape1 = shape1 c, flat = map f (flat c)\<rparr>"
  have fr: "final_rescale c = Inr out"
    using ne mpos
    by (simp add: final_rescale_def amax_def m_def [symmetric] astype_uint8_def clip_def
          np_multiply_def np_divide_def out_def f_def o_def)
  have "f m = 255"
    using mpos by (simp add: f_def trunc_def)
  with min have "255 \<in> set (flat out)"
    by (force simp: out_def)
  then have "Max (set (flat out)) = 255"
    by (intro Max_eqI) (simp_all add: word8_le_255)
  with fr show ?thesis
    by (auto simp: out_def)
qed

lemma plot_lit:
  "plot (zeros (Suc 0) (Suc 0)) 128 \<lparr>shape0 = Suc 0, shape1 = Suc 0, flat = [128]\<rparr> q
     = \<lparr>shape0 = Suc 0, shape1 = Suc 0, flat = [128]\<rparr>"
  by (auto simp: plot_def Let_def set_cell_def zeros_simps)

lemma foldl_plot_lit:
  "foldl (plot (zeros (Suc 0) (Suc 0)) 128) \<lparr>shape0 = Suc 0, shape1 = Suc 0, flat = [128]\<rparr> qs
     = \<lparr>shape0 = Suc 0, shape1 = Suc 0, flat = [128]\<rparr>"
  by (induction qs) (simp_all add: plot_lit)

lemma plot_first:
  "plot (zeros (Suc 0) (Suc 0)) 128 (zeros (Suc 0) (Suc 0)) (1 / 2, 1 / 2)
     = \<lparr>shape0 = Suc 0, shape1 = Suc 0, flat = [128]\<rparr>"
  by (simp add: plot_def Let_def set_cell_def zeros_def trunc_def)

lemma hd_ccw_sort_replicate: "0 < n \<Longrightarrow> hd (ccw_sort (replicate n q)) = q"
proof -
  assume n: "0 < n"
  have s: "set (ccw_sort (replicate n q)) = {q}"
    using n by (simp add: ccw_sort_def Let_def)
  have "ccw_sort (replicate n q) \<noteq> []"
    using s by auto
  then have "hd (ccw_sort (replicate n q)) \<in> set (ccw_sort (replicate n q))"
    by (rule hd_in_set)
  with s show ?thesis
    by simp
qed

lemma add_random_edges_unit_canvas:
  "add_random_edges (zeros (Suc 0) (Suc 0)) 1 128 3 (\<lambda>i. 1 / 2)
     = Inr (\<lparr>shape0 = Suc 0, shape1 = Suc 0, flat = [128]\<rparr>, \<lambda>i. 1 / 2)"
proof -
  define g :: rng where "g = (\<lambda>i. 1 / 2)"
  define pts :: "point list" where "pts = replicate 3 (1 / 2, 1 / 2)"
  have "get_random_points 3 1 None 0 (\<lambda>i. 1 / 2)
          = Inr (replicate (nat 3) (1 * (1 / 2), 1 * (1 / 2)), \<lambda>i. 1 / 2)"
    by (rule get_random_points_const) simp_all
  then have p: "edge_random_points (zeros (Suc 0) (Suc 0)) 3 g = Inr (pts, g)"
    by (simp add: edge_random_points_def zeros_simps g_def pts_def)
  have ne: "pts \<noteq> []"
    by (simp add: pts_def)
  from get_bezier_curve_closed [OF ne, of "1 / 5" 0]
  obtain x y a3 where b: "get_bezier_curve pts (1 / 5) 0 = Inr (x, y, a3)"
    and lx: "length x = 100 * length pts" and ly: "length y = 100 * length pts"
    and hx: "hd x = fst (hd (ccw_sort pts))" and hy: "hd y = snd (hd (ccw_sort pts))"
    by blast
  have h: "hd (ccw_sort pts) = (1 / 2, 1 / 2)"
    unfolding pts_def by (rule hd_ccw_sort_replicate) simp
  from lx ly have "x \<noteq> []" "y \<noteq> []"
    by (auto simp: pts_def)
  then have z: "zip x y = (hd x, hd y) # zip (tl x) (tl y)"
    by (cases x; cases y) simp_all
  have f: "foldl (plot (zeros (Suc 0) (Suc 0)) 128) (zeros (Suc 0) (Suc 0)) (zip x y)
             = \<lparr>shape0 = Suc 0, shape1 = Suc 0, flat = [128]\<rparr>"
    unfolding z hx hy h by (simp add: plot_first foldl_plot_lit)
  have "edges_loop (zeros (Suc 0) (Suc 0)) (Suc 0) 128 3 (zeros (Suc 0) (Suc 0)) g
          = Inr (\<lparr>shape0 = Suc 0, shape1 = Suc 0, flat = [128]\<rparr>, g)"
    by (simp add: p b f)
  then show ?thesis
    by (simp add: add_random_edges_def zeros_like_def zeros_simps g_def)
qed

lemma combined_buffer_unit_canvas:
  "combined_buffer gaussian_radius0 1 1 0 1 (1 / 10) (1 / 10) (\<lambda>i. 1 / 2)
     = Inr (\<lparr>shape0 = 1, shape1 = 1, flat = [1]\<rparr>, \<lambda>i. 1 / 2)"
proof -
  have z: "np_zeros 1 1 = Inr (zeros (Suc 0) (Suc 0))"
    by (simp add: np_zeros_def)
  have n1: "normalize_max (zeros (Suc 0) (Suc 0)) = Inr (zeros (Suc 0) (Suc 0))"
    by (rule normalize_zeros) simp
  have n2: "normalize_max \<lparr>shape0 = Suc 0, shape1 = Suc 0, flat = [128]\<rparr>
              = Inr \<lparr>shape0 = Suc 0, shape1 = Suc 0, flat = [1]\<rparr>"
    by (simp add: normalize_max_def amax_def np_divide_def)
  have i: "iadd (zeros (Suc 0) (Suc 0)) \<lparr>shape0 = Suc 0, shape1 = Suc 0, flat = [1]\<rparr>
             = \<lparr>shape0 = Suc 0, shape1 = Suc 0, flat = [1]\<rparr>"
    by (simp add: iadd_def zeros_def)
  show ?thesis
    unfolding combined_buffer_def z
    by (simp add: add_random_edges_unit_canvas gaussian_radius0_def n1 n2 i)
qed

text \<open>
  Claim C1. Whenever \<open>generate_thermal_heatmap\<close> reaches the final rescale with a
  combined buffer that is not entirely zero, it returns a heatmap whose maximum is
  exactly \<open>255\<close>. The buffers are non-negative (the filter keeps non-negative buffers
  non-negative, intensities lie in \<open>[200, 255)\<close>, the edge intensity is \<open>128\<close>), so the
  maximum of the combined buffer is positive, the rescale is not skipped, and the cell
  holding the maximum becomes \<open>255\<close>.
\<close>

theorem generate_thermal_heatmap_max_255:
  assumes "gaussian_like gf" and "unit_draws g"
    and "combined_buffer gf width height num_sources num_edges edge_sigma source_sigma g
           = Inr (c, g')"
    and "\<exists>v \<in> set (flat c). v \<noteq> 0"
  shows "\<exists>out. generate_thermal_heatmap gf width height num_sources num_edges edge_sigma
                  source_sigma g = Inr (out, g')
               \<and> Max (set (flat out)) = 255
               \<and> shape0 out = shape0 c \<and> shape1 out = shape1 c"
proof -
  from combined_buffer_non_negative [OF assms(1,2,3)] have "non_negative c" .
  from final_rescale_max [OF this assms(4)] obtain out where
    "final_rescale c = Inr out" "Max (set (flat out)) = 255"
    "shape0 out = shape0 c" "shape1 out = shape1 c"
    by blast
  then show ?thesis
    by (simp add: generate_thermal_heatmap_def assms(3))
qed

theorem generate_thermal_heatmap_max_255_witness:
  "gaussian_like gaussian_radius0 \<and> unit_draws (\<lambda>i. 1 / 2)
   \<and> combined_buffer gaussian_radius0 1 1 0 1 (1 / 10) (1 / 10) (\<lambda>i. 1 / 2)
       = Inr (\<lparr>shape0 = 1, shape1 = 1, flat = [1]\<rparr>, \<lambda>i. 1 / 2)
   \<and> (\<exists>v \<in> set (flat \<lparr>shape0 = 1, shape1 = 1, flat = [1 :: real]\<rparr>). v \<noteq> 0)
   \<and> (\<exists>out. generate_thermal_heatmap gaussian_radius0 1 1 0 1 (1 / 10) (1 / 10) (\<lambda>i. 1 / 2)
                = Inr (out, \<lambda>i. 1 / 2)
             \<and> Max (set (flat out)) = 255)"
proof -
  have u: "unit_draws (\<lambda>i. 1 / 2)"
    by (simp add: unit_draws_def)
  have n: "\<exists>v \<in> set (flat \<lparr>shape0 = 1, shape1 = 1, flat = [1 :: real]\<rparr>). v \<noteq> 0"
    by simp
  from generate_thermal_heatmap_max_255
         [OF gaussian_like_radius0 u combined_buffer_unit_canvas n]
  have "\<exists>out. generate_thermal_heatmap gaussian_radius0 1 1 0 1 (1 / 10) (1 / 10) (\<lambda>i. 1 / 2)
                = Inr (out, \<lambda>i. 1 / 2)
             \<and> Max (set (flat out)) = 255"
    by blast
  with gaussian_like_radius0 u combined_buffer_unit_canvas n show ?thesis
    by blast
qed

end
